theory Spec2Isabelle
  imports Complex_Main "HOL-Library.Word"
begin

section \<open>The thumbnail generator: strings, paths and tables\<close>

text \<open>
  A shallow embedding of \<^verbatim>\<open>thumbnail_generator.py\<close>. Python strings are
  \<^typ>\<open>string\<close>; a path is the list of the names below the filesystem root, so
  \<^verbatim>\<open>p / name\<close> is \<open>p @ [name]\<close>. Exceptions are values of the type \<open>exn\<close>; a
  function that can raise returns \<open>exn + 'a\<close>, with \<open>Inl\<close> for the raised exception.
  Every value of \<open>exn\<close> stands for an instance of a subclass of Python's
  \<^verbatim>\<open>Exception\<close>.
\<close>

type_synonym path = "string list"

datatype exn =
    FileNotFoundError
  | NotADirectoryError
  | FileExistsError
  | TimeoutExpired
  | ValueError
  | KeyError
  | OtherError string

text \<open>\<^verbatim>\<open>str.lower\<close> on the ASCII letters; other characters are left as they are.\<close>

definition lower_char :: "char \<Rightarrow> char" where
  "lower_char c =
     (let n = (of_char c :: nat) in if 65 \<le> n \<and> n \<le> 90 then char_of (n + 32) else c)"

definition lower :: "string \<Rightarrow> string" where
  "lower s = map lower_char s"

text \<open>\<^verbatim>\<open>str.rfind\<close> for one character: the last index holding it, if any.\<close>

fun rfind :: "char \<Rightarrow> string \<Rightarrow> nat option" where
  "rfind c [] = None"
| "rfind c (x # xs) =
     (case rfind c xs of
        Some i \<Rightarrow> Some (Suc i)
      | None \<Rightarrow> if x = c then Some 0 else None)"

text \<open>
  \<^verbatim>\<open>PurePath.name\<close>, \<^verbatim>\<open>PurePath.parent\<close>, \<^verbatim>\<open>PurePath.suffix\<close> (as pathlib computes
  it up to Python 3.13: from the last dot of the name, unless that dot is the first or
  the last character) and \<^verbatim>\<open>str(path)\<close>.
\<close>

definition name_of :: "path \<Rightarrow> string" where
  "name_of p = (if p = [] then [] else last p)"

definition parent :: "path \<Rightarrow> path" where
  "parent p = butlast p"

definition suffix :: "path \<Rightarrow> string" where
  "suffix p =
     (let name = name_of p in
      case rfind (CHR ''.'') name of
        None \<Rightarrow> []
      | Some i \<Rightarrow> if 0 < i \<and> i < length name - 1 then drop i name else [])"

definition str_of_path :: "path \<Rightarrow> string" where
  "str_of_path p = (if p = [] then ''/'' else concat (map (\<lambda>c. ''/'' @ c) p))"

text \<open>\<^verbatim>\<open>','.join(results)\<close>.\<close>

fun join :: "string \<Rightarrow> string list \<Rightarrow> string" where
  "join sep [] = []"
| "join sep [x] = x"
| "join sep (x # y # ys) = x @ sep @ join sep (y # ys)"

text \<open>\<^verbatim>\<open>sub in s\<close> on strings: \<open>sub\<close> occurs in \<open>s\<close> as a run of consecutive characters.\<close>

fun starts_with :: "string \<Rightarrow> string \<Rightarrow> bool" where
  "starts_with [] s = True"
| "starts_with (c # cs) [] = False"
| "starts_with (c # cs) (x # xs) = (c = x \<and> starts_with cs xs)"

fun contains :: "string \<Rightarrow> string \<Rightarrow> bool" where
  "contains sub [] = (sub = [])"
| "contains sub (x # xs) = (starts_with sub (x # xs) \<or> contains sub xs)"

definition IMAGE_EXTENSIONS :: "string set" where
  "IMAGE_EXTENSIONS =
     {''.jpg'', ''.jpeg'', ''.png'', ''.gif'', ''.bmp'', ''.webp'', ''.tiff'', ''.tif''}"

definition VIDEO_EXTENSIONS :: "string set" where
  "VIDEO_EXTENSIONS =
     {''.mp4'', ''.avi'', ''.mkv'', ''.mov'', ''.wmv'', ''.flv'', ''.webm'', ''.m4v'',
      ''.mpeg'', ''.mpg''}"

text \<open>The dictionary \<^verbatim>\<open>THUMBNAIL_SIZES\<close>, in its insertion order.\<close>

definition THUMBNAIL_SIZES :: "(string \<times> nat) list" where
  "THUMBNAIL_SIZES = [(''normal'', 128), (''large'', 256)]"

section \<open>The filesystem\<close>

text \<open>
  A filesystem is a tree: a file carries its modification time and its content, a
  directory its modification time and its entries in the order a directory scan lists
  them. Symbolic links and permissions are not modelled. \<open>stat\<close> follows a path from
  the root and fails as the system call does.
\<close>

datatype node =
    File real string
  | Dir real "(string \<times> node) list"

fun st_mtime :: "node \<Rightarrow> real" where
  "st_mtime (File t d) = t"
| "st_mtime (Dir t es) = t"

fun is_Dir :: "node \<Rightarrow> bool" where
  "is_Dir (Dir t es) = True"
| "is_Dir (File t d) = False"

fun stat :: "node \<Rightarrow> path \<Rightarrow> exn + node" where
  "stat n [] = Inr n"
| "stat (File t d) (c # cs) = Inl NotADirectoryError"
| "stat (Dir t es) (c # cs) =
     (case map_of es c of
        None \<Rightarrow> Inl FileNotFoundError
      | Some m \<Rightarrow> stat m cs)"

text \<open>\<^verbatim>\<open>Path.exists\<close> and \<^verbatim>\<open>Path.is_dir\<close>: both answer False where \<open>stat\<close> fails.\<close>

definition exists :: "node \<Rightarrow> path \<Rightarrow> bool" where
  "exists fs p = (case stat fs p of Inr n \<Rightarrow> True | Inl e \<Rightarrow> False)"

definition is_dir :: "node \<Rightarrow> path \<Rightarrow> bool" where
  "is_dir fs p = (case stat fs p of Inr n \<Rightarrow> is_Dir n | Inl e \<Rightarrow> False)"

section \<open>The staleness check\<close>

definition should_generate_thumbnail :: "node \<Rightarrow> path \<Rightarrow> path \<Rightarrow> bool \<Rightarrow> exn + bool" where
  "should_generate_thumbnail fs file_path thumbnail_path force =
     (if force then Inr True
      else if \<not> exists fs thumbnail_path then Inr True
      else case stat fs file_path of
             Inl e \<Rightarrow> Inl e
           | Inr src \<Rightarrow>
               (case stat fs thumbnail_path of
                  Inl e \<Rightarrow> Inl e
                | Inr thumb \<Rightarrow> if st_mtime src > st_mtime thumb then Inr True else Inr False))"

section \<open>The world: filesystem, clock and a record of calls\<close>

text \<open>
  The state a run acts on. \<open>trace\<close> is a record of what the program did that the
  filesystem does not show: each line printed, each call of the staleness check and
  each call of a rendering function. Calls of \<^verbatim>\<open>logger\<close> change neither the
  filesystem nor a result and are left out.
\<close>

datatype event =
    Printed string
  | StaleCheck path path
  | ImageRender path path nat
  | VideoRender path path nat

record world =
  disk :: node
  clock :: real
  trace :: "event list"

definition emit :: "event \<Rightarrow> world \<Rightarrow> world" where
  "emit e w = w\<lparr>trace := trace w @ [e]\<rparr>"

text \<open>
  What the program calls outside its own code: \<^verbatim>\<open>Path.resolve\<close> (it depends on the
  working directory), the digest of \<^verbatim>\<open>hashlib.md5\<close>, the body of the image rendering
  (Pillow's open, paste, thumbnail and save, which ends with an exception or not and
  leaves a filesystem) and \<^verbatim>\<open>subprocess.run\<close> on a command line (which raises or
  gives the return code of the process).
\<close>

type_synonym byte = "8 word"

record env =
  resolve :: "path \<Rightarrow> path"
  md5 :: "byte list \<Rightarrow> byte list"
  pil :: "path \<Rightarrow> path \<Rightarrow> nat \<Rightarrow> real \<Rightarrow> node \<Rightarrow> exn option \<times> node"
  ffmpeg :: "string list \<Rightarrow> real \<Rightarrow> node \<Rightarrow> (exn + int) \<times> node"

section \<open>The cache key\<close>

text \<open>Strings are held as their UTF-8 bytes, so \<^verbatim>\<open>encode('utf-8')\<close> reads them off.\<close>

definition encode_utf8 :: "string \<Rightarrow> byte list" where
  "encode_utf8 s = map (\<lambda>c. of_nat (of_char c)) s"

text \<open>\<^verbatim>\<open>hexdigest\<close>: two lowercase hexadecimal digits for each byte of the digest.\<close>

definition hex_digit :: "nat \<Rightarrow> char" where
  "hex_digit n = ''0123456789abcdef'' ! (n mod 16)"

definition hexdigest :: "byte list \<Rightarrow> string" where
  "hexdigest bs = concat (map (\<lambda>b. [hex_digit (unat b div 16), hex_digit (unat b mod 16)]) bs)"

definition get_file_uri :: "env \<Rightarrow> path \<Rightarrow> string" where
  "get_file_uri env file_path =
     (let absolute_path = resolve env file_path in ''file://'' @ str_of_path absolute_path)"

definition get_thumbnail_filename :: "env \<Rightarrow> path \<Rightarrow> string" where
  "get_thumbnail_filename env file_path =
     (let uri = get_file_uri env file_path;
          md5_hash = hexdigest (md5 env (encode_utf8 uri))
      in md5_hash @ ''.png'')"

section \<open>Creating the cache layout\<close>

text \<open>
  \<open>add_dir fs p name t\<close> adds an empty directory \<open>name\<close> to the directory at \<open>p\<close>, whose
  modification time becomes \<open>t\<close> too.
\<close>

fun add_dir :: "node \<Rightarrow> path \<Rightarrow> string \<Rightarrow> real \<Rightarrow> node" where
  "add_dir (Dir t es) [] name t' = Dir t' (es @ [(name, Dir t' [])])"
| "add_dir (File t d) [] name t' = File t d"
| "add_dir (File t d) (c # cs) name t' = File t d"
| "add_dir (Dir t es) (c # cs) name t' =
     Dir t (map (\<lambda>e. if fst e = c then (fst e, add_dir (snd e) cs name t') else e) es)"

text \<open>\<^verbatim>\<open>os.mkdir\<close>: one directory, whose parent must exist.\<close>

definition os_mkdir :: "path \<Rightarrow> world \<Rightarrow> (exn + unit) \<times> world" where
  "os_mkdir p w =
     (case stat (disk w) p of
        Inr n \<Rightarrow> (Inl FileExistsError, w)
      | Inl e \<Rightarrow>
          (if p = [] \<or> e \<noteq> FileNotFoundError then (Inl e, w)
           else case stat (disk w) (parent p) of
                  Inl e' \<Rightarrow> (Inl e', w)
                | Inr d \<Rightarrow>
                    if is_Dir d
                    then (Inr (), w\<lparr>disk := add_dir (disk w) (parent p) (name_of p) (clock w)\<rparr>)
                    else (Inl NotADirectoryError, w)))"

text \<open>
  \<^verbatim>\<open>Path.mkdir(parents, exist_ok)\<close>: on FileNotFoundError with \<open>parents\<close> it makes the
  parent and tries once more; any other error of the system call is dropped when
  \<open>exist_ok\<close> is set and the path is a directory.
\<close>

function mkdir :: "bool \<Rightarrow> bool \<Rightarrow> path \<Rightarrow> world \<Rightarrow> (exn + unit) \<times> world" where
  "mkdir parents exist_ok p w =
     (case os_mkdir p w of
        (Inr u, w') \<Rightarrow> (Inr (), w')
      | (Inl e, w') \<Rightarrow>
          if e = FileNotFoundError then
            (if \<not> parents \<or> parent p = p then (Inl e, w')
             else case mkdir True True (parent p) w' of
                    (Inl e', w'') \<Rightarrow> (Inl e', w'')
                  | (Inr u, w'') \<Rightarrow> mkdir False exist_ok p w'')
          else if \<not> exist_ok \<or> \<not> is_dir (disk w') p then (Inl e, w')
          else (Inr (), w'))"
  by pat_completeness auto
termination
proof (relation "measure (\<lambda>(parents, exist_ok, p, w). 2 * length p + (if parents then 1 else 0))")
  show "wf (measure (\<lambda>(parents, exist_ok, p, w). 2 * length p + (if parents then 1 else 0)))"
    by simp
next
  fix parents exist_ok :: bool and p :: path and w :: world and x xa y
  assume "\<not> (\<not> parents \<or> parent p = p)"
  then have "p \<noteq> []" by (auto simp: parent_def)
  then show "((True, True, parent p, y), parents, exist_ok, p, w)
      \<in> measure (\<lambda>(parents, exist_ok, p, w). 2 * length p + (if parents then 1 else 0))"
    by (cases p) (simp_all add: parent_def)
next
  fix parents exist_ok :: bool and p :: path and w :: world and x xa y xb ya
  assume "\<not> (\<not> parents \<or> parent p = p)"
  then show "((False, exist_ok, p, ya), parents, exist_ok, p, w)
      \<in> measure (\<lambda>(parents, exist_ok, p, w). 2 * length p + (if parents then 1 else 0))"
    by simp
qed

declare mkdir.simps [simp del]

fun create_dirs_loop ::
  "path \<Rightarrow> string list \<Rightarrow> (string \<rightharpoonup> path) \<Rightarrow> world \<Rightarrow> (exn + (string \<rightharpoonup> path)) \<times> world" where
  "create_dirs_loop thumbnail_base [] dirs w = (Inr dirs, w)"
| "create_dirs_loop thumbnail_base (size_name # rest) dirs w =
     (let size_dir = thumbnail_base @ [size_name] in
      case mkdir True True size_dir w of
        (Inl e, w') \<Rightarrow> (Inl e, w')
      | (Inr u, w') \<Rightarrow> create_dirs_loop thumbnail_base rest (dirs(size_name \<mapsto> size_dir)) w')"

definition create_thumbnail_dirs :: "path \<Rightarrow> world \<Rightarrow> (exn + (string \<rightharpoonup> path)) \<times> world" where
  "create_thumbnail_dirs directory w =
     (let thumbnail_base = directory @ [''.thumbnails''] in
      create_dirs_loop thumbnail_base (map fst THUMBNAIL_SIZES) Map.empty w)"

section \<open>Rendering\<close>

text \<open>
  \<^verbatim>\<open>generate_image_thumbnail\<close>: the whole body stands in one \<^verbatim>\<open>try\<close>, whose
  \<^verbatim>\<open>except Exception\<close> logs and returns False. What the body had written before it
  raised stays written.
\<close>

definition generate_image_thumbnail ::
  "env \<Rightarrow> path \<Rightarrow> path \<Rightarrow> nat \<Rightarrow> world \<Rightarrow> (exn + bool) \<times> world" where
  "generate_image_thumbnail env image_path output_path sz w =
     (let w1 = emit (ImageRender image_path output_path sz) w in
      case pil env image_path output_path sz (clock w1) (disk w1) of
        (None, fs') \<Rightarrow> (Inr True, w1\<lparr>disk := fs'\<rparr>)
      | (Some e, fs') \<Rightarrow> (Inr False, w1\<lparr>disk := fs'\<rparr>))"

text \<open>\<^verbatim>\<open>str(size)\<close> for a natural number.\<close>

fun str_of_nat :: "nat \<Rightarrow> string" where
  "str_of_nat n =
     (if n < 10 then [char_of (48 + n)]
      else str_of_nat (n div 10) @ [char_of (48 + n mod 10)])"

declare str_of_nat.simps [simp del]

definition ffmpeg_cmd :: "path \<Rightarrow> path \<Rightarrow> nat \<Rightarrow> string list" where
  "ffmpeg_cmd video_path output_path sz =
     [''ffmpeg'',
      ''-i'', str_of_path video_path,
      ''-ss'', ''00:00:01.000'',
      ''-vframes'', ''1'',
      ''-vf'', ''scale='' @ str_of_nat sz @ '':'' @ str_of_nat sz @
               '':force_original_aspect_ratio=decrease'',
      ''-y'',
      str_of_path output_path]"

text \<open>
  \<^verbatim>\<open>generate_video_thumbnail\<close>: three handlers, for \<^verbatim>\<open>TimeoutExpired\<close>, for
  \<^verbatim>\<open>FileNotFoundError\<close> and for every other \<^verbatim>\<open>Exception\<close>.
\<close>

definition generate_video_thumbnail ::
  "env \<Rightarrow> path \<Rightarrow> path \<Rightarrow> nat \<Rightarrow> world \<Rightarrow> (exn + bool) \<times> world" where
  "generate_video_thumbnail env video_path output_path sz w =
     (let w1 = emit (VideoRender video_path output_path sz) w;
          cmd = ffmpeg_cmd video_path output_path sz
      in case ffmpeg env cmd (clock w1) (disk w1) of
           (Inr returncode, fs') \<Rightarrow> (Inr (returncode = 0), w1\<lparr>disk := fs'\<rparr>)
         | (Inl e, fs') \<Rightarrow>
             (case e of
                TimeoutExpired \<Rightarrow> (Inr False, w1\<lparr>disk := fs'\<rparr>)
              | FileNotFoundError \<Rightarrow> (Inr False, w1\<lparr>disk := fs'\<rparr>)
              | _ \<Rightarrow> (Inr False, w1\<lparr>disk := fs'\<rparr>)))"

section \<open>Processing one file\<close>

text \<open>
  The loop of \<^verbatim>\<open>process_file\<close> over \<^verbatim>\<open>THUMBNAIL_SIZES.items()\<close>, with the list
  \<open>results\<close> it appends to.
\<close>

fun process_sizes ::
  "env \<Rightarrow> path \<Rightarrow> bool \<Rightarrow> (string \<rightharpoonup> path) \<Rightarrow> string \<Rightarrow> (string \<times> nat) list \<Rightarrow>
   string list \<Rightarrow> world \<Rightarrow> (exn + string list) \<times> world" where
  "process_sizes env file_path force thumbnail_dirs thumbnail_filename [] results w =
     (Inr results, w)"
| "process_sizes env file_path force thumbnail_dirs thumbnail_filename
     ((size_name, sz) # rest) results w =
     (case thumbnail_dirs size_name of
        None \<Rightarrow> (Inl KeyError, w)
      | Some size_dir \<Rightarrow>
          (let output_path = size_dir @ [thumbnail_filename];
               w1 = emit (StaleCheck file_path output_path) w
           in case should_generate_thumbnail (disk w1) file_path output_path force of
                Inl e \<Rightarrow> (Inl e, w1)
              | Inr stale \<Rightarrow>
                  if \<not> stale then
                    process_sizes env file_path force thumbnail_dirs thumbnail_filename rest
                      (results @ [size_name @ '':cached'']) w1
                  else
                    (case (if lower (suffix file_path) \<in> IMAGE_EXTENSIONS
                           then generate_image_thumbnail env file_path output_path sz w1
                           else generate_video_thumbnail env file_path output_path sz w1) of
                       (Inl e, w2) \<Rightarrow> (Inl e, w2)
                     | (Inr success, w2) \<Rightarrow>
                         process_sizes env file_path force thumbnail_dirs thumbnail_filename rest
                           (results @ [size_name @ '':'' @ (if success then ''ok'' else ''failed'')])
                           w2)))"

definition process_file ::
  "env \<Rightarrow> path \<Rightarrow> bool \<Rightarrow> world \<Rightarrow> (exn + path \<times> string \<times> string) \<times> world" where
  "process_file env file_path force w =
     (let extension = lower (suffix file_path) in
      if extension \<notin> IMAGE_EXTENSIONS \<and> extension \<notin> VIDEO_EXTENSIONS
      then (Inr (file_path, ''skipped'', ''unsupported''), w)
      else
        case create_thumbnail_dirs (parent file_path) w of
          (Inl e, w1) \<Rightarrow> (Inl e, w1)
        | (Inr thumbnail_dirs, w1) \<Rightarrow>
            (let thumbnail_filename = get_thumbnail_filename env file_path in
             case process_sizes env file_path force thumbnail_dirs thumbnail_filename
                    THUMBNAIL_SIZES [] w1 of
               (Inl e, w2) \<Rightarrow> (Inl e, w2)
             | (Inr results, w2) \<Rightarrow>
                 (let status = (if \<exists>r \<in> set results. contains ''ok'' r
                                then ''success'' else ''failed'')
                  in (Inr (file_path, status, join '','' results), w2))))"

section \<open>Scanning\<close>

text \<open>
  The loop of \<^verbatim>\<open>find_media_files\<close> over \<^verbatim>\<open>os.walk\<close>, top down: at a directory the
  walk lists the entries that are directories (\<open>dirs\<close>) and the others (\<open>files\<close>), the
  loop body removes the excluded names from \<open>dirs\<close> and appends the media files, and the
  walk then descends into what is left of \<open>dirs\<close>. A directory scan that fails is passed
  over, so a root that is no directory gives the empty list.
\<close>

fun walk_media :: "string set \<Rightarrow> path \<Rightarrow> node \<Rightarrow> path list" where
  "walk_media exclude_dirs root_path (File t d) = []"
| "walk_media exclude_dirs root_path (Dir t es) =
     [file_path. file \<leftarrow> [fst e. e \<leftarrow> es, \<not> is_Dir (snd e)],
                 file_path \<leftarrow> [root_path @ [file]],
                 lower (suffix file_path) \<in> IMAGE_EXTENSIONS \<or>
                 lower (suffix file_path) \<in> VIDEO_EXTENSIONS] @
     concat (map (\<lambda>e. walk_media exclude_dirs (root_path @ [fst e]) (snd e))
               [e \<leftarrow> es. is_Dir (snd e) \<and> fst e \<notin> exclude_dirs])"

text \<open>The parameter \<^verbatim>\<open>exclude_dirs\<close> with its default, taken when it is \<^verbatim>\<open>None\<close>.\<close>

definition excluded_names :: "string set option \<Rightarrow> string set" where
  "excluded_names exclude_dirs =
     (case exclude_dirs of
        None \<Rightarrow> {''.thumbnails'', ''@eaDir'', ''.DS_Store'', ''Thumbs.db''}
      | Some s \<Rightarrow> s)"

definition find_media_files :: "node \<Rightarrow> path \<Rightarrow> string set option \<Rightarrow> path list" where
  "find_media_files fs root_dir exclude_dirs =
     (case stat fs root_dir of
        Inl e \<Rightarrow> []
      | Inr n \<Rightarrow> walk_media (excluded_names exclude_dirs) root_dir n)"

section \<open>The run\<close>

record args =
  args_directory :: path
  args_force :: bool
  args_workers :: int
  args_dry_run :: bool

text \<open>
  The worker pool runs every submitted unit of work to its end, also when the loop over
  the results has stopped on an exception. The units are run here one after the other,
  in the order they were submitted, and their results are read in that order.
\<close>

fun run_units ::
  "env \<Rightarrow> bool \<Rightarrow> path list \<Rightarrow> world \<Rightarrow> (exn + path \<times> string \<times> string) list \<times> world" where
  "run_units env force [] w = ([], w)"
| "run_units env force (file_path # rest) w =
     (case process_file env file_path force w of
        (r, w1) \<Rightarrow> (case run_units env force rest w1 of (rs, w2) \<Rightarrow> (r # rs, w2)))"

text \<open>
  The loop over the completed futures: \<^verbatim>\<open>future.result()\<close> raises what the unit
  raised; otherwise one of the three counters may go up.
\<close>

fun tally ::
  "(exn + path \<times> string \<times> string) list \<Rightarrow> nat \<times> nat \<times> nat \<Rightarrow> exn + nat \<times> nat \<times> nat" where
  "tally [] counters = Inr counters"
| "tally (Inl e # rest) counters = Inl e"
| "tally (Inr (file_path, status, details) # rest) (successful, failed, cached) =
     (if status = ''success'' then tally rest (successful + 1, failed, cached)
      else if status = ''failed'' then tally rest (successful, failed + 1, cached)
      else if contains ''cached'' details then tally rest (successful, failed, cached + 1)
      else tally rest (successful, failed, cached))"

fun print_lines :: "path list \<Rightarrow> world \<Rightarrow> world" where
  "print_lines [] w = w"
| "print_lines (file_path # rest) w =
     print_lines rest (emit (Printed (''Would process: '' @ str_of_path file_path)) w)"

text \<open>
  \<^verbatim>\<open>main\<close>, from the parsed arguments on. \<^verbatim>\<open>ThreadPoolExecutor\<close> raises
  \<^verbatim>\<open>ValueError\<close> for a worker count that is not positive.
\<close>

definition main :: "env \<Rightarrow> args \<Rightarrow> world \<Rightarrow> (exn + int) \<times> world" where
  "main env a w =
     (let root_dir = args_directory a in
      if \<not> exists (disk w) root_dir then (Inr 1, w)
      else if \<not> is_dir (disk w) root_dir then (Inr 1, w)
      else
        (let media_files = find_media_files (disk w) root_dir None in
         if args_dry_run a then (Inr 0, print_lines media_files w)
         else if args_workers a \<le> 0 then (Inl ValueError, w)
         else
           case run_units env (args_force a) media_files w of
             (outcomes, w') \<Rightarrow>
               (case tally outcomes (0, 0, 0) of
                  Inl e \<Rightarrow> (Inl e, w')
                | Inr (successful, failed, cached) \<Rightarrow>
                    (Inr (if failed = 0 then 0 else 1), w'))))"

section \<open>Notions the properties are stated with\<close>

text \<open>The test both the scanner and \<^verbatim>\<open>process_file\<close> apply to a path.\<close>

definition is_media :: "path \<Rightarrow> bool" where
  "is_media p =
     (lower (suffix p) \<in> IMAGE_EXTENSIONS \<or> lower (suffix p) \<in> VIDEO_EXTENSIONS)"

text \<open>
  The cache entry of a file for a variant: the directory \<^verbatim>\<open>create_thumbnail_dirs\<close>
  gives for the variant, joined with the thumbnail filename.
\<close>

definition entry_path :: "env \<Rightarrow> path \<Rightarrow> string \<Rightarrow> path" where
  "entry_path env file_path size_name =
     parent file_path @ [''.thumbnails'', size_name, get_thumbnail_filename env file_path]"

text \<open>
  A file is fresh when it exists and, for every variant, its cache entry exists and is
  at least as new as the file.
\<close>

definition fresh :: "env \<Rightarrow> node \<Rightarrow> path \<Rightarrow> bool" where
  "fresh env fs file_path =
     list_all (\<lambda>size_name.
        case stat fs file_path of
          Inl e \<Rightarrow> False
        | Inr src \<Rightarrow>
            (case stat fs (entry_path env file_path size_name) of
               Inl e \<Rightarrow> False
             | Inr thumb \<Rightarrow> st_mtime src \<le> st_mtime thumb))
       (map fst THUMBNAIL_SIZES)"

text \<open>The two staleness checks \<^verbatim>\<open>process_file\<close> makes for a file, as events.\<close>

definition stale_checks :: "env \<Rightarrow> path \<Rightarrow> event list" where
  "stale_checks env p =
     [StaleCheck p (entry_path env p ''normal''), StaleCheck p (entry_path env p ''large'')]"


text \<open>
  The results of the units of work of a run, the number of them with the outcome
  \<^verbatim>\<open>failed\<close>, and the first exception among them.
\<close>

definition outcomes_of :: "env \<Rightarrow> args \<Rightarrow> world \<Rightarrow> (exn + path \<times> string \<times> string) list" where
  "outcomes_of env a w =
     fst (run_units env (args_force a)
            (find_media_files (disk w) (args_directory a) None) w)"

fun has_status :: "string \<Rightarrow> exn + path \<times> string \<times> string \<Rightarrow> bool" where
  "has_status s (Inl e) = False"
| "has_status s (Inr (file_path, status, details)) = (status = s)"

definition failed_count :: "(exn + path \<times> string \<times> string) list \<Rightarrow> nat" where
  "failed_count outcomes = length (filter (has_status ''failed'') outcomes)"

fun first_raised :: "(exn + 'a) list \<Rightarrow> exn option" where
  "first_raised [] = None"
| "first_raised (Inl e # rest) = Some e"
| "first_raised (Inr x # rest) = first_raised rest"

section \<open>Example trees and collaborators\<close>

text \<open>
  Stand-ins for what lies outside the program, for the examples only: paths that are
  canonical already, a two-byte digest, an image library that writes the output file
  with the time of the clock, one that cannot read the image, and a machine without
  \<^verbatim>\<open>ffmpeg\<close>. Every theorem below holds for all collaborators.
\<close>

fun put_file :: "node \<Rightarrow> path \<Rightarrow> node \<Rightarrow> node" where
  "put_file n [] new = new"
| "put_file (File t d) (c # cs) new = File t d"
| "put_file (Dir t es) (c # cs) new =
     (if cs = [] \<and> map_of es c = None then Dir t (es @ [(c, new)])
      else Dir t (map (\<lambda>e. if fst e = c then (fst e, put_file (snd e) cs new) else e) es))"

definition pil_saves :: "path \<Rightarrow> path \<Rightarrow> nat \<Rightarrow> real \<Rightarrow> node \<Rightarrow> exn option \<times> node" where
  "pil_saves image_path output_path sz t fs = (None, put_file fs output_path (File t ''PNG''))"

definition pil_cannot_identify ::
  "path \<Rightarrow> path \<Rightarrow> nat \<Rightarrow> real \<Rightarrow> node \<Rightarrow> exn option \<times> node" where
  "pil_cannot_identify image_path output_path sz t fs =
     (Some (OtherError ''cannot identify image file''), fs)"

definition ffmpeg_missing :: "string list \<Rightarrow> real \<Rightarrow> node \<Rightarrow> (exn + int) \<times> node" where
  "ffmpeg_missing cmd t fs = (Inl FileNotFoundError, fs)"

definition ffmpeg_hangs :: "string list \<Rightarrow> real \<Rightarrow> node \<Rightarrow> (exn + int) \<times> node" where
  "ffmpeg_hangs cmd t fs = (Inl TimeoutExpired, fs)"

definition ex_env :: env where
  "ex_env =
     \<lparr>resolve = (\<lambda>p. p), md5 = (\<lambda>bs. [of_nat (length bs), 171]),
      pil = pil_saves, ffmpeg = ffmpeg_missing\<rparr>"

definition ex_world :: "node \<Rightarrow> real \<Rightarrow> world" where
  "ex_world fs t = \<lparr>disk = fs, clock = t, trace = []\<rparr>"

definition ex_args :: "path \<Rightarrow> bool \<Rightarrow> int \<Rightarrow> bool \<Rightarrow> args" where
  "ex_args d f n dry =
     \<lparr>args_directory = d, args_force = f, args_workers = n, args_dry_run = dry\<rparr>"

text \<open>A tree with an image, a video, a text file, a subdirectory and an excluded one.\<close>

definition ex_tree :: node where
  "ex_tree =
     Dir 0 [(''photos'',
       Dir 10 [(''a.JPG'', File 20 ''jpeg''),
               (''clip.mp4'', File 30 ''mp4''),
               (''notes.txt'', File 5 ''text''),
               (''sub'', Dir 3 [(''b.png'', File 4 ''png'')]),
               (''@eaDir'', Dir 3 [(''c.png'', File 4 ''png'')])])]"

text \<open>A directory where a regular file named \<^verbatim>\<open>.thumbnails\<close> stands beside the image.\<close>

definition ex_blocked :: node where
  "ex_blocked =
     Dir 0 [(''photos'',
       Dir 10 [(''a.jpg'', File 20 ''jpeg''), (''.thumbnails'', File 7 ''not a directory'')])]"

text \<open>An image whose two cache entries exist and are newer than it.\<close>

definition ex_cached :: node where
  "ex_cached =
     Dir 0 [(''photos'',
       Dir 10 [(''a.jpg'', File 20 ''jpeg''),
               (''.thumbnails'',
                Dir 50 [(''normal'', Dir 50 [(''14ab.png'', File 50 ''PNG'')]),
                        (''large'', Dir 50 [(''14ab.png'', File 50 ''PNG'')])])])]"

text \<open>An image whose modification time lies ahead of the clock, and a lone video.\<close>

definition ex_future :: node where
  "ex_future = Dir 0 [(''photos'', Dir 10 [(''a.jpg'', File 100 ''jpeg'')])]"

definition ex_video :: node where
  "ex_video = Dir 0 [(''photos'', Dir 10 [(''clip.mp4'', File 30 ''mp4'')])]"




text \<open>The result string of a variant is one of three.\<close>

definition variant_result :: "string \<times> nat \<Rightarrow> string \<Rightarrow> bool" where
  "variant_result v r =
     (r = fst v @ '':cached'' \<or> r = fst v @ '':ok'' \<or> r = fst v @ '':failed'')"






section \<open>The staleness check (C1)\<close>

lemma exists_stat: "exists fs p \<longleftrightarrow> (\<exists>n. stat fs p = Inr n)"
  by (simp add: exists_def split: sum.splits)

text \<open>
  C1. For a source file that exists, the staleness check returns true exactly when the
  force flag is set, or the entry path does not exist, or the modification time of the
  source is strictly greater than the entry's; so it returns false whenever the entry
  exists, is at least as new as the source, and force is not set.
\<close>

theorem should_generate_thumbnail_spec:
  assumes "stat fs file_path = Inr src"
  shows "should_generate_thumbnail fs file_path thumbnail_path force =
           Inr (force \<or> \<not> exists fs thumbnail_path \<or>
                (\<exists>thumb. stat fs thumbnail_path = Inr thumb \<and> st_mtime src > st_mtime thumb))
         \<and> (\<not> force \<and> (\<exists>thumb. stat fs thumbnail_path = Inr thumb \<and>
                                  st_mtime thumb \<ge> st_mtime src)
              \<longrightarrow> should_generate_thumbnail fs file_path thumbnail_path force = Inr False)"
proof (cases "stat fs thumbnail_path")
  case (Inl e)
  then have "\<not> exists fs thumbnail_path" by (simp add: exists_def)
  with Inl show ?thesis by (simp add: should_generate_thumbnail_def)
next
  case (Inr thumb)
  then have "exists fs thumbnail_path" by (simp add: exists_def)
  with Inr assms show ?thesis by (auto simp: should_generate_thumbnail_def)
qed

theorem should_generate_thumbnail_spec_witness:
  "stat ex_cached [''photos'', ''a.jpg''] = Inr (File 20 ''jpeg'') \<and>
   should_generate_thumbnail ex_cached [''photos'', ''a.jpg'']
     [''photos'', ''.thumbnails'', ''normal'', ''14ab.png''] False = Inr False \<and>
   should_generate_thumbnail ex_cached [''photos'', ''a.jpg'']
     [''photos'', ''.thumbnails'', ''normal'', ''14ab.png''] True = Inr True \<and>
   should_generate_thumbnail ex_cached [''photos'', ''a.jpg'']
     [''photos'', ''.thumbnails'', ''normal'', ''0000.png''] False = Inr True \<and>
   should_generate_thumbnail ex_future [''photos'', ''a.jpg''] [''photos''] False = Inr True"
proof -
  have s: "stat ex_cached [''photos'', ''a.jpg''] = Inr (File 20 ''jpeg'')"
    by (simp add: ex_cached_def)
  have f: "stat ex_future [''photos'', ''a.jpg''] = Inr (File 100 ''jpeg'')"
    by (simp add: ex_future_def)
  have t: "stat ex_cached [''photos'', ''.thumbnails'', ''normal'', ''14ab.png''] = Inr (File 50 ''PNG'')"
    by (simp add: ex_cached_def)
  have n: "stat ex_cached [''photos'', ''.thumbnails'', ''normal'', ''0000.png''] = Inl FileNotFoundError"
    by (simp add: ex_cached_def)
  have d: "stat ex_future [''photos''] = Inr (Dir 10 [(''a.jpg'', File 100 ''jpeg'')])"
    by (simp add: ex_future_def)
  show ?thesis
    using s
      should_generate_thumbnail_spec [OF s, of "[''photos'', ''.thumbnails'', ''normal'', ''14ab.png'']" False]
      should_generate_thumbnail_spec [OF s, of "[''photos'', ''.thumbnails'', ''normal'', ''14ab.png'']" True]
      should_generate_thumbnail_spec [OF s, of "[''photos'', ''.thumbnails'', ''normal'', ''0000.png'']" False]
      should_generate_thumbnail_spec [OF f, of "[''photos'']" False]
    by (simp add: t n d exists_def)
qed

section \<open>Rendering never raises (C7)\<close>

text \<open>
  C7. Whatever the image library or the external process does (end normally, or raise
  any exception), both rendering functions return a boolean and raise nothing; where
  the body raised, the boolean is False.
\<close>

theorem render_never_raises:
  "(\<exists>b w'. generate_image_thumbnail env image_path output_path sz w = (Inr b, w')) \<and>
   (\<exists>b w'. generate_video_thumbnail env video_path output_path sz w = (Inr b, w')) \<and>
   (fst (pil env image_path output_path sz (clock w) (disk w)) = Some e \<longrightarrow>
      fst (generate_image_thumbnail env image_path output_path sz w) = Inr False) \<and>
   (fst (ffmpeg env (ffmpeg_cmd video_path output_path sz) (clock w) (disk w)) = Inl e \<longrightarrow>
      fst (generate_video_thumbnail env video_path output_path sz w) = Inr False)"
proof -
  obtain r fs' where p: "pil env image_path output_path sz (clock w) (disk w) = (r, fs')"
    by (cases "pil env image_path output_path sz (clock w) (disk w)")
  obtain q fs'' where f:
    "ffmpeg env (ffmpeg_cmd video_path output_path sz) (clock w) (disk w) = (q, fs'')"
    by (cases "ffmpeg env (ffmpeg_cmd video_path output_path sz) (clock w) (disk w)")
  have i: "\<exists>b w'. generate_image_thumbnail env image_path output_path sz w = (Inr b, w')"
    using p by (cases r) (auto simp: generate_image_thumbnail_def emit_def)
  have v: "\<exists>b w'. generate_video_thumbnail env video_path output_path sz w = (Inr b, w')"
  proof (cases q)
    case (Inl x)
    with f show ?thesis
      by (cases x) (auto simp: generate_video_thumbnail_def emit_def)
  next
    case (Inr c)
    with f show ?thesis by (auto simp: generate_video_thumbnail_def emit_def)
  qed
  have i': "fst (generate_image_thumbnail env image_path output_path sz w) = Inr False" if "r = Some e"
    using p that by (simp add: generate_image_thumbnail_def emit_def)
  have v': "fst (generate_video_thumbnail env video_path output_path sz w) = Inr False" if "q = Inl e"
    using f that by (cases e) (simp_all add: generate_video_thumbnail_def emit_def)
  show ?thesis using i v i' v' p f by simp
qed

theorem render_never_raises_witness:
  "fst (generate_image_thumbnail (ex_env\<lparr>pil := pil_cannot_identify\<rparr>) [''photos'', ''a.jpg'']
          [''photos'', ''.thumbnails'', ''normal'', ''14ab.png''] 128 (ex_world ex_cached 50)) = Inr False \<and>
   fst (generate_video_thumbnail ex_env [''photos'', ''clip.mp4'']
          [''photos'', ''.thumbnails'', ''normal'', ''17ab.png''] 128 (ex_world ex_video 50)) = Inr False \<and>
   fst (generate_video_thumbnail (ex_env\<lparr>ffmpeg := ffmpeg_hangs\<rparr>) [''photos'', ''clip.mp4'']
          [''photos'', ''.thumbnails'', ''normal'', ''17ab.png''] 128 (ex_world ex_video 50)) = Inr False"
  using
    render_never_raises [of "ex_env\<lparr>pil := pil_cannot_identify\<rparr>" "[''photos'', ''a.jpg'']"
      "[''photos'', ''.thumbnails'', ''normal'', ''14ab.png'']" 128 "ex_world ex_cached 50"
      "[''photos'', ''clip.mp4'']" "OtherError ''cannot identify image file''"]
    render_never_raises [of ex_env "[''photos'', ''a.jpg'']"
      "[''photos'', ''.thumbnails'', ''normal'', ''17ab.png'']" 128 "ex_world ex_video 50"
      "[''photos'', ''clip.mp4'']" FileNotFoundError]
    render_never_raises [of "ex_env\<lparr>ffmpeg := ffmpeg_hangs\<rparr>" "[''photos'', ''a.jpg'']"
      "[''photos'', ''.thumbnails'', ''normal'', ''17ab.png'']" 128 "ex_world ex_video 50"
      "[''photos'', ''clip.mp4'']" TimeoutExpired]
  by (simp add: ex_env_def ex_world_def pil_cannot_identify_def ffmpeg_missing_def ffmpeg_hangs_def)

section \<open>Facts about the filesystem and the cache layout\<close>

lemma stat_append:
  "stat fs (p @ q) = (case stat fs p of Inl e \<Rightarrow> Inl e | Inr m \<Rightarrow> stat m q)"
proof (induction p arbitrary: fs)
  case Nil
  show ?case by simp
next
  case (Cons c cs)
  show ?case
  proof (cases fs)
    case (File t d)
    then show ?thesis by simp
  next
    case (Dir t es)
    then show ?thesis using Cons.IH by (simp split: option.splits)
  qed
qed

lemma stat_child_is_dir:
  assumes "stat fs (p @ [c]) = Inr n"
  shows "is_dir fs p"
proof -
  from assms obtain m where m: "stat fs p = Inr m" "stat m [c] = Inr n"
    by (auto simp: stat_append split: sum.splits)
  then have "is_Dir m" by (cases m) auto
  with m show ?thesis by (simp add: is_dir_def)
qed

lemma is_dir_exists: "is_dir fs p \<Longrightarrow> exists fs p"
  by (auto simp: is_dir_def exists_def split: sum.splits)

lemma mkdir_existing:
  assumes "is_dir (disk w) p"
  shows "mkdir parents True p w = (Inr (), w)"
proof -
  from assms obtain n where "stat (disk w) p = Inr n"
    by (auto simp: is_dir_def split: sum.splits)
  then have "os_mkdir p w = (Inl FileExistsError, w)"
    by (simp add: os_mkdir_def)
  then show ?thesis using assms by (subst mkdir.simps) simp
qed

lemma create_thumbnail_dirs_existing:
  assumes "is_dir (disk w) (d @ [''.thumbnails'', ''normal''])"
      and "is_dir (disk w) (d @ [''.thumbnails'', ''large''])"
  shows "create_thumbnail_dirs d w =
     (Inr [''normal'' \<mapsto> d @ [''.thumbnails'', ''normal''],
           ''large'' \<mapsto> d @ [''.thumbnails'', ''large'']], w)"
  using assms
  by (simp add: create_thumbnail_dirs_def THUMBNAIL_SIZES_def mkdir_existing Let_def)




section \<open>Fresh entries\<close>

lemma fresh_stat:
  assumes "fresh env fs p" and "(size_name, sz) \<in> set THUMBNAIL_SIZES"
  shows "\<exists>src thumb. stat fs p = Inr src \<and> stat fs (entry_path env p size_name) = Inr thumb \<and>
           st_mtime src \<le> st_mtime thumb"
  using assms
  by (auto simp: fresh_def THUMBNAIL_SIZES_def split: sum.splits)

lemma fresh_not_stale:
  assumes "fresh env fs p" and "(size_name, sz) \<in> set THUMBNAIL_SIZES"
  shows "should_generate_thumbnail fs p (entry_path env p size_name) False = Inr False"
proof -
  from fresh_stat [OF assms] obtain src thumb where
    "stat fs p = Inr src" "stat fs (entry_path env p size_name) = Inr thumb"
    "st_mtime src \<le> st_mtime thumb" by blast
  then show ?thesis by (simp add: should_generate_thumbnail_def exists_def)
qed

lemma fresh_layout:
  assumes "fresh env fs p" and "(size_name, sz) \<in> set THUMBNAIL_SIZES"
  shows "is_dir fs (parent p @ [''.thumbnails'', size_name])"
proof -
  from fresh_stat [OF assms] obtain thumb where
    "stat fs (entry_path env p size_name) = Inr thumb" by blast
  then have "stat fs ((parent p @ [''.thumbnails'', size_name]) @ [get_thumbnail_filename env p])
      = Inr thumb"
    by (simp add: entry_path_def)
  then show ?thesis by (rule stat_child_is_dir)
qed

lemma process_file_fresh:
  assumes "fresh env (disk w) p" and "is_media p"
  shows "process_file env p False w =
     (Inr (p, ''failed'', ''normal:cached,large:cached''),
      w\<lparr>trace := trace w @ [StaleCheck p (entry_path env p ''normal''),
                             StaleCheck p (entry_path env p ''large'')]\<rparr>)"
proof -
  have n: "(''normal'', 128) \<in> set THUMBNAIL_SIZES" and l: "(''large'', 256) \<in> set THUMBNAIL_SIZES"
    by (simp_all add: THUMBNAIL_SIZES_def)
  have dirs: "create_thumbnail_dirs (parent p) w =
     (Inr [''normal'' \<mapsto> parent p @ [''.thumbnails'', ''normal''],
           ''large'' \<mapsto> parent p @ [''.thumbnails'', ''large'']], w)"
    using fresh_layout [OF assms(1) n] fresh_layout [OF assms(1) l]
    by (rule create_thumbnail_dirs_existing)
  have sn: "should_generate_thumbnail (disk w) p
      (parent p @ [''.thumbnails'', ''normal'', get_thumbnail_filename env p]) False = Inr False"
    using fresh_not_stale [OF assms(1) n] by (simp add: entry_path_def)
  have sl: "should_generate_thumbnail (disk w) p
      (parent p @ [''.thumbnails'', ''large'', get_thumbnail_filename env p]) False = Inr False"
    using fresh_not_stale [OF assms(1) l] by (simp add: entry_path_def)
  show ?thesis
    using assms(2) dirs sn sl
    by (auto simp: process_file_def is_media_def THUMBNAIL_SIZES_def emit_def entry_path_def Let_def)
qed

lemma run_units_fresh:
  assumes "\<forall>p \<in> set ps. fresh env (disk w) p \<and> is_media p"
  shows "run_units env False ps w =
     (map (\<lambda>p. Inr (p, ''failed'', ''normal:cached,large:cached'')) ps,
      w\<lparr>trace := trace w @ concat (map (stale_checks env) ps)\<rparr>)"
  using assms
proof (induction ps arbitrary: w)
  case Nil
  show ?case by simp
next
  case (Cons p ps)
  let ?w1 = "w\<lparr>trace := trace w @ stale_checks env p\<rparr>"
  from Cons.prems have p: "fresh env (disk w) p" "is_media p" by simp_all
  have one: "process_file env p False w =
      (Inr (p, ''failed'', ''normal:cached,large:cached''), ?w1)"
    using process_file_fresh [OF p] by (simp add: stale_checks_def)
  have "\<forall>q \<in> set ps. fresh env (disk ?w1) q \<and> is_media q" using Cons.prems by simp
  from Cons.IH [OF this] one show ?case by simp
qed

lemma walk_media_is_media:
  "p \<in> set (walk_media excl root_path n) \<Longrightarrow> is_media p"
proof (induction excl root_path n arbitrary: p rule: walk_media.induct)
  case (1 excl root_path t d)
  then show ?case by simp
next
  case (2 excl root_path t es)
  from "2.prems" consider
      "is_media p"
    | "\<exists>e \<in> set [e\<leftarrow>es. is_Dir (snd e) \<and> fst e \<notin> excl].
          p \<in> set (walk_media excl (root_path @ [fst e]) (snd e))"
    by (auto simp: is_media_def)
  then show ?case
  proof cases
    case 1
    then show ?thesis .
  next
    case 2
    then obtain e where "e \<in> set [e\<leftarrow>es. is_Dir (snd e) \<and> fst e \<notin> excl]"
      "p \<in> set (walk_media excl (root_path @ [fst e]) (snd e))" by blast
    then show ?thesis by (rule "2.IH")
  qed
qed

lemma find_media_files_is_media:
  "p \<in> set (find_media_files fs root_dir exclude_dirs) \<Longrightarrow> is_media p"
  by (auto simp: find_media_files_def split: sum.splits dest: walk_media_is_media)


section \<open>Dry run (C9)\<close>

lemma print_lines_eq:
  "print_lines ps w =
     w\<lparr>trace := trace w @ map (\<lambda>p. Printed (''Would process: '' @ str_of_path p)) ps\<rparr>"
  by (induction ps arbitrary: w) (simp_all add: emit_def)

text \<open>
  C9. With the dry-run flag set on a directory that exists, the run prints one line for
  each candidate, returns 0, and does nothing else: the filesystem is the same (so no
  \<^verbatim>\<open>.thumbnails\<close> directory is made and no entry written), and the trace gains the
  printed lines only, so neither the staleness check nor a rendering function is called.
  With the flag set the filesystem never changes and nothing but lines is added to the
  trace, whatever the directory.
\<close>

theorem dry_run_frame:
  "(is_dir (disk w) (args_directory a) \<and> args_dry_run a \<longrightarrow>
      main env a w =
        (Inr 0,
         w\<lparr>trace := trace w @
               map (\<lambda>p. Printed (''Would process: '' @ str_of_path p))
                 (find_media_files (disk w) (args_directory a) None)\<rparr>)) \<and>
   (args_dry_run a \<longrightarrow>
      disk (snd (main env a w)) = disk w \<and>
      (\<forall>ev \<in> set (trace (snd (main env a w))). ev \<in> set (trace w) \<or> (\<exists>s. ev = Printed s)))"
proof (intro conjI impI)
  assume h: "is_dir (disk w) (args_directory a) \<and> args_dry_run a"
  then have "exists (disk w) (args_directory a)" by (simp add: is_dir_exists)
  with h show "main env a w =
        (Inr 0,
         w\<lparr>trace := trace w @
               map (\<lambda>p. Printed (''Would process: '' @ str_of_path p))
                 (find_media_files (disk w) (args_directory a) None)\<rparr>)"
    by (simp add: main_def Let_def print_lines_eq)
next
  assume "args_dry_run a"
  then show "disk (snd (main env a w)) = disk w"
    by (simp add: main_def Let_def print_lines_eq)
next
  assume "args_dry_run a"
  then show "\<forall>ev \<in> set (trace (snd (main env a w))). ev \<in> set (trace w) \<or> (\<exists>s. ev = Printed s)"
    by (auto simp: main_def Let_def print_lines_eq)
qed

theorem dry_run_frame_witness:
  "is_dir (disk (ex_world ex_tree 50)) (args_directory (ex_args [''photos''] False 4 True)) \<and>
   args_dry_run (ex_args [''photos''] False 4 True) \<and>
   main ex_env (ex_args [''photos''] False 4 True) (ex_world ex_tree 50) =
     (Inr 0,
      \<lparr>disk = ex_tree, clock = 50,
       trace = [Printed ''Would process: /photos/a.JPG'',
                Printed ''Would process: /photos/clip.mp4'',
                Printed ''Would process: /photos/sub/b.png'']\<rparr>)"
proof -
  have d: "is_dir (disk (ex_world ex_tree 50)) (args_directory (ex_args [''photos''] False 4 True))"
    by code_simp
  have f: "find_media_files ex_tree [''photos''] None =
      [[''photos'', ''a.JPG''], [''photos'', ''clip.mp4''], [''photos'', ''sub'', ''b.png'']]"
    by code_simp
  show ?thesis
    using d dry_run_frame [of "ex_world ex_tree 50" "ex_args [''photos''] False 4 True" ex_env]
    by (simp add: ex_world_def ex_args_def f str_of_path_def)
qed

section \<open>A second run (C3)\<close>




section \<open>The scanner (C6, C10)\<close>









section \<open>The loop over the variants\<close>

lemma generate_image_returns:
  "\<exists>b w'. generate_image_thumbnail env p out sz w = (Inr b, w') \<and>
          trace w' = trace w @ [ImageRender p out sz]"
proof -
  obtain r fs' where "pil env p out sz (clock w) (disk w) = (r, fs')"
    by (cases "pil env p out sz (clock w) (disk w)")
  then show ?thesis
    by (cases r) (auto simp: generate_image_thumbnail_def emit_def)
qed

lemma generate_video_returns:
  "\<exists>b w'. generate_video_thumbnail env p out sz w = (Inr b, w') \<and>
          trace w' = trace w @ [VideoRender p out sz]"
proof -
  obtain q fs' where f: "ffmpeg env (ffmpeg_cmd p out sz) (clock w) (disk w) = (q, fs')"
    by (cases "ffmpeg env (ffmpeg_cmd p out sz) (clock w) (disk w)")
  show ?thesis
  proof (cases q)
    case (Inl e)
    with f show ?thesis by (cases e) (auto simp: generate_video_thumbnail_def emit_def)
  next
    case (Inr c)
    with f show ?thesis by (auto simp: generate_video_thumbnail_def emit_def)
  qed
qed

lemma render_returns:
  "\<exists>b w'. (if c then generate_image_thumbnail env p out sz w
                 else generate_video_thumbnail env p out sz w) = (Inr b, w') \<and>
          (trace w' = trace w @ [ImageRender p out sz] \<or>
           trace w' = trace w @ [VideoRender p out sz])"
  using generate_image_returns [of env p out sz w] generate_video_returns [of env p out sz w]
  by (cases c) auto

text \<open>One round of the loop, case by case.\<close>

lemma process_sizes_Cons:
  assumes "process_sizes env p force dirs fn ((n, s) # rest) results w = (r, w')"
  shows "(dirs n = None \<and> r = Inl KeyError \<and> w' = w) \<or>
     (\<exists>d. dirs n = Some d \<and>
        ((\<exists>e. should_generate_thumbnail (disk w) p (d @ [fn]) force = Inl e \<and> r = Inl e \<and>
              w' = emit (StaleCheck p (d @ [fn])) w) \<or>
         (should_generate_thumbnail (disk w) p (d @ [fn]) force = Inr False \<and>
            process_sizes env p force dirs fn rest (results @ [n @ '':cached''])
              (emit (StaleCheck p (d @ [fn])) w) = (r, w')) \<or>
         (\<exists>b w2. should_generate_thumbnail (disk w) p (d @ [fn]) force = Inr True \<and>
            (trace w2 = trace w @ [StaleCheck p (d @ [fn]), ImageRender p (d @ [fn]) s] \<or>
             trace w2 = trace w @ [StaleCheck p (d @ [fn]), VideoRender p (d @ [fn]) s]) \<and>
            process_sizes env p force dirs fn rest
              (results @ [n @ '':'' @ (if b then ''ok'' else ''failed'')]) w2 = (r, w'))))"
proof (cases "dirs n")
  case None
  with assms show ?thesis by simp
next
  case (Some d)
  let ?w1 = "emit (StaleCheck p (d @ [fn])) w"
  have d1: "disk ?w1 = disk w" and t1: "trace ?w1 = trace w @ [StaleCheck p (d @ [fn])]"
    by (simp_all add: emit_def)
  show ?thesis
  proof (cases "should_generate_thumbnail (disk w) p (d @ [fn]) force")
    case (Inl e)
    with assms Some d1 show ?thesis by (simp add: Let_def)
  next
    case (Inr stale)
    show ?thesis
    proof (cases stale)
      case False
      with assms Some d1 Inr show ?thesis by (simp add: Let_def)
    next
      case True
      from render_returns [of "lower (suffix p) \<in> IMAGE_EXTENSIONS" env p "d @ [fn]" s ?w1]
      obtain b w2 where g:
        "(if lower (suffix p) \<in> IMAGE_EXTENSIONS
          then generate_image_thumbnail env p (d @ [fn]) s ?w1
          else generate_video_thumbnail env p (d @ [fn]) s ?w1) = (Inr b, w2)"
        "trace w2 = trace ?w1 @ [ImageRender p (d @ [fn]) s] \<or>
         trace w2 = trace ?w1 @ [VideoRender p (d @ [fn]) s]"
        by blast
      from assms Some d1 Inr True g(1)
      have "process_sizes env p force dirs fn rest
              (results @ [n @ '':'' @ (if b then ''ok'' else ''failed'')]) w2 = (r, w')"
        by (simp add: Let_def)
      with Inr True g(2) t1
      have "\<exists>b w2. should_generate_thumbnail (disk w) p (d @ [fn]) force = Inr True \<and>
            (trace w2 = trace w @ [StaleCheck p (d @ [fn]), ImageRender p (d @ [fn]) s] \<or>
             trace w2 = trace w @ [StaleCheck p (d @ [fn]), VideoRender p (d @ [fn]) s]) \<and>
            process_sizes env p force dirs fn rest
              (results @ [n @ '':'' @ (if b then ''ok'' else ''failed'')]) w2 = (r, w')"
        by (intro exI [of _ b] exI [of _ w2]) simp
      with Some show ?thesis by blast
    qed
  qed
qed

lemma process_sizes_results:
  assumes "process_sizes env p force dirs fn sizes results w = (Inr rs, w')"
  shows "\<exists>new. rs = results @ new \<and> list_all2 variant_result sizes new"
  using assms
proof (induction sizes arbitrary: results w)
  case Nil
  then show ?case by simp
next
  case (Cons v rest)
  obtain n s where v: "v = (n, s)" by (cases v)
  have "\<exists>r1 w1. process_sizes env p force dirs fn rest (results @ [r1]) w1 = (Inr rs, w') \<and>
      variant_result v r1"
    using process_sizes_Cons [OF Cons.prems [unfolded v]]
    apply (elim disjE exE conjE)
    subgoal by simp
    subgoal by simp
    subgoal by (intro exI conjI, assumption) (simp add: variant_result_def v)
    subgoal by (intro exI conjI, assumption) (simp add: variant_result_def v)
    subgoal by (intro exI conjI, assumption) (simp add: variant_result_def v)
    done
  then obtain r1 w1 where
    rec: "process_sizes env p force dirs fn rest (results @ [r1]) w1 = (Inr rs, w')"
    and r1: "variant_result v r1"
    by blast
  from Cons.IH [OF rec] obtain new where "rs = (results @ [r1]) @ new"
    "list_all2 variant_result rest new" by blast
  with r1 have "rs = results @ (r1 # new) \<and> list_all2 variant_result (v # rest) (r1 # new)"
    by simp
  then show ?case by blast
qed


section \<open>The outcome of a file (C2)\<close>

lemma contains_ok:
  "\<not> contains ''ok'' ''normal:cached''" "\<not> contains ''ok'' ''normal:failed''"
  "\<not> contains ''ok'' ''large:cached''" "\<not> contains ''ok'' ''large:failed''"
  "contains ''ok'' ''normal:ok''" "contains ''ok'' ''large:ok''"
  by simp_all

lemma variant_results_two:
  assumes "list_all2 variant_result THUMBNAIL_SIZES results"
  shows "\<exists>r1 r2. results = [r1, r2] \<and>
           (r1 = ''normal:cached'' \<or> r1 = ''normal:ok'' \<or> r1 = ''normal:failed'') \<and>
           (r2 = ''large:cached'' \<or> r2 = ''large:ok'' \<or> r2 = ''large:failed'')"
  using assms
  by (auto simp: THUMBNAIL_SIZES_def list_all2_Cons1 variant_result_def)

lemma ok_in_results:
  assumes "list_all2 variant_result THUMBNAIL_SIZES results"
  shows "(\<exists>r \<in> set results. contains ''ok'' r) \<longleftrightarrow>
           ''normal:ok'' \<in> set results \<or> ''large:ok'' \<in> set results"
proof -
  from variant_results_two [OF assms] obtain r1 r2 where r: "results = [r1, r2]"
    "r1 = ''normal:cached'' \<or> r1 = ''normal:ok'' \<or> r1 = ''normal:failed''"
    "r2 = ''large:cached'' \<or> r2 = ''large:ok'' \<or> r2 = ''large:failed''" by blast
  from r(2,3) show ?thesis unfolding r(1) by (elim disjE) simp_all
qed

text \<open>What \<^verbatim>\<open>process_file\<close> does past its extension test.\<close>

lemma process_file_unfold:
  assumes "is_media p"
  shows "process_file env p force w =
     (case create_thumbnail_dirs (parent p) w of
        (Inl e, w1) \<Rightarrow> (Inl e, w1)
      | (Inr dirs, w1) \<Rightarrow>
          (case process_sizes env p force dirs (get_thumbnail_filename env p)
                  THUMBNAIL_SIZES [] w1 of
             (Inl e, w2) \<Rightarrow> (Inl e, w2)
           | (Inr results, w2) \<Rightarrow>
               (Inr (p, if \<exists>x \<in> set results. contains ''ok'' x then ''success'' else ''failed'',
                     join '','' results), w2)))"
proof -
  from assms have "\<not> (lower (suffix p) \<notin> IMAGE_EXTENSIONS \<and> lower (suffix p) \<notin> VIDEO_EXTENSIONS)"
    by (auto simp: is_media_def)
  then show ?thesis
    by (simp add: process_file_def Let_def split: prod.splits sum.splits)
qed

lemma process_file_media:
  assumes "is_media p" and "process_file env p force w = (r, w')"
  shows "(\<exists>e. create_thumbnail_dirs (parent p) w = (Inl e, w') \<and> r = Inl e) \<or>
     (\<exists>dirs w1. create_thumbnail_dirs (parent p) w = (Inr dirs, w1) \<and>
        ((\<exists>e. process_sizes env p force dirs (get_thumbnail_filename env p)
                 THUMBNAIL_SIZES [] w1 = (Inl e, w') \<and> r = Inl e) \<or>
         (\<exists>results. process_sizes env p force dirs (get_thumbnail_filename env p)
                 THUMBNAIL_SIZES [] w1 = (Inr results, w') \<and>
             r = Inr (p, if \<exists>x \<in> set results. contains ''ok'' x then ''success'' else ''failed'',
                      join '','' results))))"
proof -
  obtain c w1 where c: "create_thumbnail_dirs (parent p) w = (c, w1)"
    by (cases "create_thumbnail_dirs (parent p) w")
  show ?thesis
  proof (cases c)
    case (Inl e)
    with assms(2) c show ?thesis by (simp add: process_file_unfold [OF assms(1)])
  next
    case (Inr dirs)
    obtain s w2 where s: "process_sizes env p force dirs (get_thumbnail_filename env p)
        THUMBNAIL_SIZES [] w1 = (s, w2)"
      by (cases "process_sizes env p force dirs (get_thumbnail_filename env p)
        THUMBNAIL_SIZES [] w1")
    show ?thesis
    proof (cases s)
      case (Inl e)
      with assms(2) c \<open>c = Inr dirs\<close> s show ?thesis
        by (simp add: process_file_unfold [OF assms(1)])
    next
      case (Inr results)
      with assms(2) c \<open>c = Inr dirs\<close> s show ?thesis
        by (simp add: process_file_unfold [OF assms(1)])
    qed
  qed
qed

text \<open>
  C2. Whenever \<^verbatim>\<open>process_file\<close> returns for a media file, its details are the joined
  result strings of the two variants, each of which is the variant's name followed by
  \<^verbatim>\<open>:cached\<close>, \<^verbatim>\<open>:ok\<close> or \<^verbatim>\<open>:failed\<close>; the outcome is \<^verbatim>\<open>success\<close> exactly when
  one of the strings contains \<^verbatim>\<open>ok\<close> (which is when a variant was rendered well) and
  \<^verbatim>\<open>failed\<close> otherwise. In particular a file whose two entries are fresh returns the
  outcome \<^verbatim>\<open>failed\<close> with both variants \<^verbatim>\<open>cached\<close>, and no render is tried.
\<close>

theorem process_file_status:
  "(is_media p \<and> process_file env p force w = (Inr (q, status, details), w') \<longrightarrow>
      (\<exists>dirs w1 results.
          create_thumbnail_dirs (parent p) w = (Inr dirs, w1) \<and>
          process_sizes env p force dirs (get_thumbnail_filename env p)
            THUMBNAIL_SIZES [] w1 = (Inr results, w') \<and>
          list_all2 variant_result THUMBNAIL_SIZES results \<and>
          q = p \<and> details = join '','' results \<and>
          (status = ''success'' \<longleftrightarrow> (\<exists>r \<in> set results. contains ''ok'' r)) \<and>
          (status = ''failed'' \<longleftrightarrow> \<not> (\<exists>r \<in> set results. contains ''ok'' r)) \<and>
          ((\<exists>r \<in> set results. contains ''ok'' r) \<longleftrightarrow>
             ''normal:ok'' \<in> set results \<or> ''large:ok'' \<in> set results))) \<and>
   (is_media p \<and> fresh env (disk w) p \<longrightarrow>
      process_file env p False w =
        (Inr (p, ''failed'', ''normal:cached,large:cached''),
         w\<lparr>trace := trace w @ stale_checks env p\<rparr>))"
proof (intro conjI impI)
  assume h: "is_media p \<and> process_file env p force w = (Inr (q, status, details), w')"
  from process_file_media [of p env force w "Inr (q, status, details)" w'] h
  obtain dirs w1 results where
    c: "create_thumbnail_dirs (parent p) w = (Inr dirs, w1)" and
    s: "process_sizes env p force dirs (get_thumbnail_filename env p)
            THUMBNAIL_SIZES [] w1 = (Inr results, w')" and
    r: "Inr (q, status, details) =
          (Inr (p, if \<exists>x \<in> set results. contains ''ok'' x then ''success'' else ''failed'',
                join '','' results) :: exn + path \<times> string \<times> string)"
    by auto
  from process_sizes_results [OF s] have v: "list_all2 variant_result THUMBNAIL_SIZES results"
    by simp
  from r have "q = p" "details = join '','' results"
    "status = (if \<exists>x \<in> set results. contains ''ok'' x then ''success'' else ''failed'')"
    by simp_all
  with c s v ok_in_results [OF v]
  show "\<exists>dirs w1 results.
          create_thumbnail_dirs (parent p) w = (Inr dirs, w1) \<and>
          process_sizes env p force dirs (get_thumbnail_filename env p)
            THUMBNAIL_SIZES [] w1 = (Inr results, w') \<and>
          list_all2 variant_result THUMBNAIL_SIZES results \<and>
          q = p \<and> details = join '','' results \<and>
          (status = ''success'' \<longleftrightarrow> (\<exists>r \<in> set results. contains ''ok'' r)) \<and>
          (status = ''failed'' \<longleftrightarrow> \<not> (\<exists>r \<in> set results. contains ''ok'' r)) \<and>
          ((\<exists>r \<in> set results. contains ''ok'' r) \<longleftrightarrow>
             ''normal:ok'' \<in> set results \<or> ''large:ok'' \<in> set results)"
    by (intro exI [of _ dirs] exI [of _ w1] exI [of _ results]) simp
next
  assume "is_media p \<and> fresh env (disk w) p"
  then show "process_file env p False w =
        (Inr (p, ''failed'', ''normal:cached,large:cached''),
         w\<lparr>trace := trace w @ stale_checks env p\<rparr>)"
    using process_file_fresh [of env w p] by (simp add: stale_checks_def)
qed

theorem process_file_status_witness:
  "is_media [''photos'', ''a.jpg''] \<and> fresh ex_env (disk (ex_world ex_cached 70)) [''photos'', ''a.jpg''] \<and>
   fst (process_file ex_env [''photos'', ''a.jpg''] False (ex_world ex_cached 70)) =
     Inr ([''photos'', ''a.jpg''], ''failed'', ''normal:cached,large:cached'') \<and>
   fst (process_file ex_env [''photos'', ''a.jpg''] False (ex_world ex_future 50)) =
     Inr ([''photos'', ''a.jpg''], ''success'', ''normal:ok,large:ok'') \<and>
   fst (process_file ex_env [''photos'', ''clip.mp4''] False (ex_world ex_video 50)) =
     Inr ([''photos'', ''clip.mp4''], ''failed'', ''normal:failed,large:failed'')"
proof -
  have m: "is_media [''photos'', ''a.jpg'']" by code_simp
  have f: "fresh ex_env (disk (ex_world ex_cached 70)) [''photos'', ''a.jpg'']" by code_simp
  have a: "fst (process_file ex_env [''photos'', ''a.jpg''] False (ex_world ex_future 50)) =
     Inr ([''photos'', ''a.jpg''], ''success'', ''normal:ok,large:ok'')" by code_simp
  have b: "fst (process_file ex_env [''photos'', ''clip.mp4''] False (ex_world ex_video 50)) =
     Inr ([''photos'', ''clip.mp4''], ''failed'', ''normal:failed,large:failed'')" by code_simp
  from process_file_status [of "[''photos'', ''a.jpg'']" ex_env False "ex_world ex_cached 70"] m f
  have "fst (process_file ex_env [''photos'', ''a.jpg''] False (ex_world ex_cached 70)) =
     Inr ([''photos'', ''a.jpg''], ''failed'', ''normal:cached,large:cached'')"
    by simp
  with m f a b show ?thesis by simp
qed

section \<open>The thumbnail filename (C4)\<close>








section \<open>The result of a run (C5, C8)\<close>

lemma tally_raised:
  "first_raised outcomes = Some e \<Longrightarrow> tally outcomes counters = Inl e"
  by (induction outcomes counters rule: tally.induct) auto

lemma tally_counts:
  "first_raised outcomes = None \<Longrightarrow>
   \<exists>s' c'. tally outcomes (s, f, c) = Inr (s', f + failed_count outcomes, c')"
proof (induction outcomes "(s, f, c)" arbitrary: s f c rule: tally.induct)
  case (1 counters)
  then show ?case by (simp add: failed_count_def)
next
  case (2 e rest counters)
  then show ?case by simp
next
  case (3 file_path status details rest successful failed cached)
  from "3.prems" have n: "first_raised rest = None" by simp
  show ?case
  proof (cases "status = ''success''")
    case True
    with "3.hyps"(1) [OF True n] show ?thesis by (simp add: failed_count_def)
  next
    case ns: False
    show ?thesis
    proof (cases "status = ''failed''")
      case True
      with ns "3.hyps"(2) [OF ns True n] show ?thesis by (simp add: failed_count_def)
    next
      case nf: False
      show ?thesis
      proof (cases "contains ''cached'' details")
        case True
        with ns nf "3.hyps"(3) [OF ns nf True n] show ?thesis by (simp add: failed_count_def)
      next
        case False
        with ns nf "3.hyps"(4) [OF ns nf False n] show ?thesis by (simp add: failed_count_def)
      qed
    qed
  qed
qed


lemma main_result:
  assumes "is_dir (disk w) (args_directory a)" "\<not> args_dry_run a" "0 < args_workers a"
  shows "fst (main env a w) =
     (case tally (outcomes_of env a w) (0, 0, 0) of
        Inl e \<Rightarrow> Inl e
      | Inr (successful, failed, cached) \<Rightarrow> Inr (if failed = 0 then 0 else 1))"
  using assms is_dir_exists [OF assms(1)]
  by (simp add: main_def outcomes_of_def Let_def split: prod.splits sum.splits)

text \<open>
  C5 as stated fails: past the directory test and without the dry-run flag the run does
  not always return a code. Where the cache layout of the only file cannot be made, no
  file has the outcome \<^verbatim>\<open>failed\<close>, yet main does not return 0: it raises the error of
  the unit. With a worker count of 0 main raises before any file is processed.
\<close>

theorem main_raises_with_no_failed_file:
  "is_dir (disk (ex_world ex_blocked 50)) [''photos''] \<and>
   failed_count (outcomes_of ex_env (ex_args [''photos''] False 4 False) (ex_world ex_blocked 50)) = 0 \<and>
   fst (main ex_env (ex_args [''photos''] False 4 False) (ex_world ex_blocked 50))
     = Inl NotADirectoryError \<and>
   main ex_env (ex_args [''photos''] False 0 False) (ex_world ex_future 50)
     = (Inl ValueError, ex_world ex_future 50)"
  by code_simp

text \<open>
  C5, amended. A directory that does not exist or is no directory: the run returns 1 and
  has done nothing. Otherwise, with the dry-run flag: 0. Otherwise, when the worker
  count is positive and no unit of work raises: 0 if no file has the outcome
  \<^verbatim>\<open>failed\<close>, else 1. Otherwise main returns no code: it raises \<^verbatim>\<open>ValueError\<close> for a
  worker count that is not positive, and else the first exception among the results.
\<close>

theorem main_exit_code:
  "(\<not> exists (disk w) (args_directory a) \<or> \<not> is_dir (disk w) (args_directory a) \<longrightarrow>
      main env a w = (Inr 1, w)) \<and>
   (is_dir (disk w) (args_directory a) \<and> args_dry_run a \<longrightarrow> fst (main env a w) = Inr 0) \<and>
   (is_dir (disk w) (args_directory a) \<and> \<not> args_dry_run a \<and> 0 < args_workers a \<and>
    first_raised (outcomes_of env a w) = None \<longrightarrow>
      fst (main env a w) = Inr (if failed_count (outcomes_of env a w) = 0 then 0 else 1)) \<and>
   (is_dir (disk w) (args_directory a) \<and> \<not> args_dry_run a \<and> args_workers a \<le> 0 \<longrightarrow>
      main env a w = (Inl ValueError, w)) \<and>
   (is_dir (disk w) (args_directory a) \<and> \<not> args_dry_run a \<and> 0 < args_workers a \<and>
    first_raised (outcomes_of env a w) = Some e \<longrightarrow>
      fst (main env a w) = Inl e)"
proof (intro conjI impI)
  assume "\<not> exists (disk w) (args_directory a) \<or> \<not> is_dir (disk w) (args_directory a)"
  then show "main env a w = (Inr 1, w)" by (auto simp: main_def Let_def)
next
  assume h: "is_dir (disk w) (args_directory a) \<and> args_dry_run a"
  with is_dir_exists [of "disk w" "args_directory a"]
  show "fst (main env a w) = Inr 0" by (simp add: main_def Let_def)
next
  assume h: "is_dir (disk w) (args_directory a) \<and> \<not> args_dry_run a \<and> 0 < args_workers a \<and>
    first_raised (outcomes_of env a w) = None"
  from tally_counts [of "outcomes_of env a w" 0 0 0] h
  obtain s' c' where "tally (outcomes_of env a w) (0, 0, 0) =
      Inr (s', failed_count (outcomes_of env a w), c')" by auto
  with h main_result [of w a env]
  show "fst (main env a w) = Inr (if failed_count (outcomes_of env a w) = 0 then 0 else 1)"
    by simp
next
  assume h: "is_dir (disk w) (args_directory a) \<and> \<not> args_dry_run a \<and> args_workers a \<le> 0"
  with is_dir_exists [of "disk w" "args_directory a"]
  show "main env a w = (Inl ValueError, w)" by (simp add: main_def Let_def)
next
  assume h: "is_dir (disk w) (args_directory a) \<and> \<not> args_dry_run a \<and> 0 < args_workers a \<and>
    first_raised (outcomes_of env a w) = Some e"
  then have "tally (outcomes_of env a w) (0, 0, 0) = Inl e" by (simp add: tally_raised)
  with h main_result [of w a env] show "fst (main env a w) = Inl e" by simp
qed

theorem main_exit_code_witness:
  "is_dir (disk (ex_world ex_tree 50)) (args_directory (ex_args [''photos''] False 4 False)) \<and>
   first_raised (outcomes_of ex_env (ex_args [''photos''] False 4 False) (ex_world ex_tree 50)) = None \<and>
   failed_count (outcomes_of ex_env (ex_args [''photos''] False 4 False) (ex_world ex_tree 50)) = 1 \<and>
   fst (main ex_env (ex_args [''photos''] False 4 False) (ex_world ex_tree 50)) = Inr 1 \<and>
   failed_count (outcomes_of ex_env (ex_args [''photos''] False 4 False) (ex_world ex_future 50)) = 0 \<and>
   fst (main ex_env (ex_args [''photos''] False 4 False) (ex_world ex_future 50)) = Inr 0 \<and>
   fst (main ex_env (ex_args [''photos''] False 4 True) (ex_world ex_tree 50)) = Inr 0 \<and>
   main ex_env (ex_args [''nowhere''] False 4 False) (ex_world ex_tree 50) = (Inr 1, ex_world ex_tree 50) \<and>
   main ex_env (ex_args [''photos'', ''notes.txt''] False 4 True) (ex_world ex_tree 50)
     = (Inr 1, ex_world ex_tree 50)"
proof -
  have d: "is_dir (disk (ex_world ex_tree 50)) (args_directory (ex_args [''photos''] False 4 False))"
    by code_simp
  have r: "first_raised (outcomes_of ex_env (ex_args [''photos''] False 4 False) (ex_world ex_tree 50)) = None"
    by code_simp
  have c: "failed_count (outcomes_of ex_env (ex_args [''photos''] False 4 False) (ex_world ex_tree 50)) = 1"
    by code_simp
  have w: "0 < args_workers (ex_args [''photos''] False 4 False)"
    "\<not> args_dry_run (ex_args [''photos''] False 4 False)" by (simp_all add: ex_args_def)
  from main_exit_code [of "ex_world ex_tree 50" "ex_args [''photos''] False 4 False" ex_env] d r c w
  have m: "fst (main ex_env (ex_args [''photos''] False 4 False) (ex_world ex_tree 50)) = Inr 1"
    by simp
  have rest: "failed_count (outcomes_of ex_env (ex_args [''photos''] False 4 False) (ex_world ex_future 50)) = 0 \<and>
   fst (main ex_env (ex_args [''photos''] False 4 False) (ex_world ex_future 50)) = Inr 0 \<and>
   fst (main ex_env (ex_args [''photos''] False 4 True) (ex_world ex_tree 50)) = Inr 0 \<and>
   main ex_env (ex_args [''nowhere''] False 4 False) (ex_world ex_tree 50) = (Inr 1, ex_world ex_tree 50) \<and>
   main ex_env (ex_args [''photos'', ''notes.txt''] False 4 True) (ex_world ex_tree 50)
     = (Inr 1, ex_world ex_tree 50)"
    by code_simp
  from d r c m rest show ?thesis by simp
qed

section \<open>Exceptions and failed renders in the loop over the variants\<close>





















section \<open>Filesystem errors in a unit of work (C8)\<close>





section \<open>The skipped branch (C10)\<close>





section \<open>Consequences for the summary of a run\<close>

lemma first_raised_map_Inr: "first_raised (map (\<lambda>p. Inr (f p)) ps) = None"
  by (induction ps) simp_all

lemma failed_count_all_failed:
  "failed_count (map (\<lambda>p. Inr (p, ''failed'', d)) ps) = length ps"
  by (induction ps) (simp_all add: failed_count_def)

text \<open>
  X1. A run without the force flag in which every file the scanner yields is fresh, and
  which finds at least one file, returns 1: each file gets the outcome \<^verbatim>\<open>failed\<close>.
\<close>

theorem fresh_run_exits_1:
  assumes "is_dir (disk w) (args_directory a)"
      and "\<not> args_dry_run a" and "\<not> args_force a" and "0 < args_workers a"
      and "\<forall>p \<in> set (find_media_files (disk w) (args_directory a) None). fresh env (disk w) p"
      and "find_media_files (disk w) (args_directory a) None \<noteq> []"
  shows "fst (main env a w) = Inr 1 \<and>
         failed_count (outcomes_of env a w) =
           length (find_media_files (disk w) (args_directory a) None)"
proof -
  let ?files = "find_media_files (disk w) (args_directory a) None"
  have all: "\<forall>p \<in> set ?files. fresh env (disk w) p \<and> is_media p"
    using assms(5) find_media_files_is_media by blast
  have o: "outcomes_of env a w =
      map (\<lambda>p. Inr (p, ''failed'', ''normal:cached,large:cached'')) ?files"
    using run_units_fresh [OF all] assms(3) by (simp add: outcomes_of_def)
  have r: "first_raised (outcomes_of env a w) = None"
    unfolding o by (rule first_raised_map_Inr)
  have c: "failed_count (outcomes_of env a w) = length ?files"
    unfolding o by (rule failed_count_all_failed)
  from tally_counts [OF r, of 0 0 0] c obtain s' c' where
    "tally (outcomes_of env a w) (0, 0, 0) = Inr (s', length ?files, c')" by auto
  with main_result [OF assms(1,2,4), of env] assms(6) c show ?thesis by simp
qed

theorem fresh_run_exits_1_witness:
  "is_dir (disk (ex_world ex_cached 70)) (args_directory (ex_args [''photos''] False 4 False)) \<and>
   find_media_files ex_cached [''photos''] None = [[''photos'', ''a.jpg'']] \<and>
   fresh ex_env ex_cached [''photos'', ''a.jpg''] \<and>
   fst (main ex_env (ex_args [''photos''] False 4 False) (ex_world ex_cached 70)) = Inr 1"
proof -
  have f: "find_media_files ex_cached [''photos''] None = [[''photos'', ''a.jpg'']]"
    by code_simp
  have fr: "fresh ex_env ex_cached [''photos'', ''a.jpg'']" by code_simp
  have d: "is_dir ex_cached [''photos'']" by code_simp
  show ?thesis
    using fresh_run_exits_1 [of "ex_world ex_cached 70" "ex_args [''photos''] False 4 False" ex_env]
    by (simp add: ex_world_def ex_args_def f fr d)
qed

lemma process_file_shape:
  assumes "process_file env p force w = (Inr (q, status, details), w')"
  shows "status = ''success'' \<or> status = ''failed'' \<or> details = ''unsupported''"
proof (cases "is_media p")
  case True
  from process_file_media [OF True assms] obtain results where
    "status = (if \<exists>x \<in> set results. contains ''ok'' x then ''success'' else ''failed'')"
    by auto
  then show ?thesis by (cases "\<exists>x \<in> set results. contains ''ok'' x") simp_all
next
  case False
  with assms show ?thesis by (simp add: process_file_def is_media_def Let_def)
qed

lemma run_units_shape:
  assumes "run_units env force ps w = (outcomes, w')"
      and "Inr (q, status, details) \<in> set outcomes"
  shows "status = ''success'' \<or> status = ''failed'' \<or> details = ''unsupported''"
  using assms
proof (induction ps arbitrary: w outcomes w')
  case Nil
  then show ?case by simp
next
  case (Cons p ps)
  obtain r w1 where pf: "process_file env p force w = (r, w1)"
    by (cases "process_file env p force w")
  obtain rs w2 where ru: "run_units env force ps w1 = (rs, w2)"
    by (cases "run_units env force ps w1")
  from Cons.prems(1) pf ru have o: "outcomes = r # rs" by auto
  with Cons.prems(2) consider "r = Inr (q, status, details)" | "Inr (q, status, details) \<in> set rs"
    by auto
  then show ?case
  proof cases
    case 1
    with pf process_file_shape show ?thesis by blast
  next
    case 2
    from Cons.IH [OF ru 2] show ?thesis .
  qed
qed

lemma tally_cached:
  assumes "\<forall>q status details. Inr (q, status, details) \<in> set outcomes \<longrightarrow>
             status = ''success'' \<or> status = ''failed'' \<or> details = ''unsupported''"
      and "tally outcomes (s, f, c) = Inr (s', f', c')"
  shows "c' = c"
  using assms
proof (induction outcomes "(s, f, c)" arbitrary: s f c rule: tally.induct)
  case (1 counters)
  then show ?case by simp
next
  case (2 e rest counters)
  then show ?case by simp
next
  case (3 file_path status details rest successful failed cached)
  have rest: "\<forall>q status details. Inr (q, status, details) \<in> set rest \<longrightarrow>
             status = ''success'' \<or> status = ''failed'' \<or> details = ''unsupported''"
    using "3.prems"(1) by auto
  have here: "status = ''success'' \<or> status = ''failed'' \<or> details = ''unsupported''"
    using "3.prems"(1) by auto
  show ?case
  proof (cases "status = ''success''")
    case True
    with "3.hyps"(1) [OF True rest] "3.prems"(2) show ?thesis by simp
  next
    case ns: False
    show ?thesis
    proof (cases "status = ''failed''")
      case True
      with ns "3.hyps"(2) [OF ns True rest] "3.prems"(2) show ?thesis by simp
    next
      case nf: False
      with ns here have u: "details = ''unsupported''" by simp
      then have nc: "\<not> contains ''cached'' details" by simp
      with ns nf "3.hyps"(4) [OF ns nf nc rest] "3.prems"(2) show ?thesis by simp
    qed
  qed
qed

text \<open>
  X2. The counter \<^verbatim>\<open>cached\<close> of main never rises: when the loop over the results
  ends without an exception, it is still 0, since no result of \<^verbatim>\<open>process_file\<close> has
  an outcome other than \<^verbatim>\<open>success\<close> or \<^verbatim>\<open>failed\<close> together with details that
  contain \<^verbatim>\<open>cached\<close>.
\<close>

theorem cached_counter_stays_zero:
  assumes "tally (outcomes_of env a w) (0, 0, 0) = Inr (successful, failed, cached)"
  shows "cached = 0"
proof -
  obtain outcomes w' where ru: "run_units env (args_force a)
      (find_media_files (disk w) (args_directory a) None) w = (outcomes, w')"
    by (cases "run_units env (args_force a)
      (find_media_files (disk w) (args_directory a) None) w")
  then have o: "outcomes_of env a w = outcomes" by (simp add: outcomes_of_def)
  have "\<forall>q status details. Inr (q, status, details) \<in> set outcomes \<longrightarrow>
             status = ''success'' \<or> status = ''failed'' \<or> details = ''unsupported''"
    using run_units_shape [OF ru] by blast
  from tally_cached [OF this] assms o show ?thesis by simp
qed

theorem cached_counter_stays_zero_witness:
  "tally (outcomes_of ex_env (ex_args [''photos''] False 4 False) (ex_world ex_cached 70)) (0, 0, 0)
     = Inr (0, 1, 0)"
proof -
  have t: "tally (outcomes_of ex_env (ex_args [''photos''] False 4 False) (ex_world ex_cached 70))
             (0, 0, 0) = Inr (0, 1, 0)" by code_simp
  from cached_counter_stays_zero [OF t] t show ?thesis by simp
qed

end
